theory Spec2Isabelle
  imports Complex_Main "HOL-Library.Log_Nat"
begin

section \<open>Python values and exceptions\<close>

text \<open>
  The exceptions that the two modules raise or let through.  \<open>ConnectionError\<close> is the
  backend's \<^verbatim>\<open>elastic.ConnectionError\<close>; \<open>Exception\<close> stands for any other exception
  class a collaborator may raise.
\<close>

datatype exn =
    ClientError string
  | ServerError string
  | ConnectionError
  | ValueError string
  | ZeroDivisionError
  | OverflowError
  | AttributeError string
  | TypeError string
  | NotImplementedError string
  | Exception string

text \<open>
  The values that \<^verbatim>\<open>request.args.get\<close> can hand to the view: the string of a parameter
  that is present, or the default given in the call (\<^verbatim>\<open>None\<close>, \<^verbatim>\<open>20\<close>, \<^verbatim>\<open>1\<close>,
  \<^verbatim>\<open>False\<close>).
\<close>

datatype pyval = PyNone | PyBool bool | PyInt int | PyStr string

subsection \<open>Decimal rendering: \<^verbatim>\<open>str(n)\<close> and \<^verbatim>\<open>f"{n}"\<close>\<close>

definition digit_char :: "nat \<Rightarrow> char" where
  "digit_char d = ''0123456789'' ! d"

fun show_nat :: "nat \<Rightarrow> string" where
  "show_nat n = (if n < 10 then [digit_char n] else show_nat (n div 10) @ [digit_char (n mod 10)])"

declare show_nat.simps [simp del]

definition show_int :: "int \<Rightarrow> string" where
  "show_int i = (if i < 0 then CHR ''-'' # show_nat (nat (- i)) else show_nat (nat i))"

fun py_str :: "pyval \<Rightarrow> string" where
  "py_str PyNone = ''None''"
| "py_str (PyBool b) = (if b then ''True'' else ''False'')"
| "py_str (PyInt i) = show_int i"
| "py_str (PyStr s) = s"

subsection \<open>\<^verbatim>\<open>str.lower\<close>\<close>

text \<open>
  Lower-casing of the ASCII letters; every other character is left as it is.  Python
  lower-cases non-ASCII letters as well, but no non-ASCII code point has one of the
  letters of \<^verbatim>\<open>'true'\<close> as its lower case, so the comparison below is not affected.
\<close>

definition lower_char :: "char \<Rightarrow> char" where
  "lower_char c =
     (case map_of (zip ''ABCDEFGHIJKLMNOPQRSTUVWXYZ'' ''abcdefghijklmnopqrstuvwxyz'') c of
        None \<Rightarrow> c
      | Some l \<Rightarrow> l)"

definition lower :: "string \<Rightarrow> string" where
  "lower s = map lower_char s"

text \<open>
  The attribute lookup \<^verbatim>\<open>x.lower()\<close>: only a string has the method.  (The text
  of the messages of \<^verbatim>\<open>AttributeError\<close>, and of \<^verbatim>\<open>ValueError\<close> and
  \<^verbatim>\<open>TypeError\<close> below, is written without Python's quotation marks; the view never
  reads it.)
\<close>

fun lower_method :: "pyval \<Rightarrow> exn + string" where
  "lower_method (PyStr s) = Inr (lower s)"
| "lower_method PyNone = Inl (AttributeError ''NoneType object has no attribute lower'')"
| "lower_method (PyBool b) = Inl (AttributeError ''bool object has no attribute lower'')"
| "lower_method (PyInt i) = Inl (AttributeError ''int object has no attribute lower'')"

subsection \<open>\<^verbatim>\<open>int(x)\<close>\<close>

text \<open>
  The builtin \<^verbatim>\<open>int\<close> on a string is a parameter \<open>int_str\<close> of the model: it gives
  the integer, or \<open>None\<close> where \<^verbatim>\<open>int\<close> raises \<^verbatim>\<open>ValueError\<close>, the one exception
  that \<^verbatim>\<open>int\<close> raises on a string.  Which strings \<^verbatim>\<open>int\<close> accepts depends on the
  Unicode tables and on the digit limit of the Python version at hand; the theorems on
  the view hold for every such function.  On an integer \<^verbatim>\<open>int\<close> is the identity.
\<close>

fun py_int :: "(string \<Rightarrow> int option) \<Rightarrow> pyval \<Rightarrow> exn + int" where
  "py_int int_str (PyInt i) = Inr i"
| "py_int int_str (PyBool b) = Inr (if b then 1 else 0)"
| "py_int int_str (PyStr s) = (case int_str s of None \<Rightarrow> Inl (ValueError s) | Some i \<Rightarrow> Inr i)"
| "py_int int_str PyNone = Inl (TypeError ''int() argument must be a string or a number'')"

subsection \<open>\<^verbatim>\<open>a / b\<close> on integers and \<^verbatim>\<open>math.ceil\<close>\<close>

text \<open>
  A finite double is given by a pair \<open>(m, p)\<close> of integers and has the value
  \<open>m * 2 ^ p\<close>.

  The true quotient \<^verbatim>\<open>a / b\<close> of two integers is the double nearest to the exact
  quotient, a tie going to the even mantissa: 53 bits of mantissa for a quotient of
  magnitude \<open>2 ^ -1022\<close> or more, and the fixed exponent \<open>-1074\<close> below that, where
  the quotient may round to zero.  A quotient that rounds to \<open>2 ^ 1024\<close> or more
  raises \<^verbatim>\<open>OverflowError\<close>; a divisor of zero raises \<^verbatim>\<open>ZeroDivisionError\<close>.
\<close>

type_synonym double = "int \<times> int"

text \<open>The integer nearest to \<open>n / d\<close>, a tie going to the even one, for \<open>0 < d\<close>.\<close>

definition round_half_even :: "int \<Rightarrow> int \<Rightarrow> int" where
  "round_half_even n d =
     (let q = n div d; r = n mod d in
      if 2 * r < d then q else if d < 2 * r then q + 1 else if even q then q else q + 1)"

text \<open>
  The exponent \<open>e\<close> with \<open>2 ^ e \<le> a / b < 2 ^ (e + 1)\<close>, for \<open>0 < a\<close> and \<open>0 < b\<close>:
  the difference of the bit lengths, or one less.
\<close>

definition floor_log2 :: "int \<Rightarrow> int \<Rightarrow> int" where
  "floor_log2 a b =
     (let d = bitlen a - bitlen b in
      if (if 0 \<le> d then b * 2 ^ nat d \<le> a else b \<le> a * 2 ^ nat (- d)) then d else d - 1)"

definition nearest_double :: "int \<Rightarrow> int \<Rightarrow> double" where
  "nearest_double a b =
     (let p = max (floor_log2 a b - 52) (- 1074);
          m = (if 0 \<le> p then round_half_even a (b * 2 ^ nat p)
               else round_half_even (a * 2 ^ nat (- p)) b)
      in (m, p))"

definition true_divide :: "int \<Rightarrow> int \<Rightarrow> exn + double" where
  "true_divide a b =
     (if b = 0 then Inl ZeroDivisionError
      else if a = 0 then Inr (0, 0)
      else (case nearest_double \<bar>a\<bar> \<bar>b\<bar> of
              (m, p) \<Rightarrow>
                if 0 \<le> p \<and> 2 ^ 1024 \<le> m * 2 ^ nat p then Inl OverflowError
                else Inr (sgn a * sgn b * m, p)))"

text \<open>\<^verbatim>\<open>math.ceil\<close> of a double: the least integer that is not below \<open>m * 2 ^ p\<close>.\<close>

fun math_ceil :: "double \<Rightarrow> int" where
  "math_ceil (m, p) = (if 0 \<le> p then m * 2 ^ nat p else - ((- m) div 2 ^ nat (- p)))"

section \<open>The query view (api/controller/v1/query.py)\<close>

text \<open>
  \<^verbatim>\<open>request.args.get(key, default=d)\<close>: the parameter's string when the key is present,
  the default otherwise.
\<close>

definition args_get :: "(string \<rightharpoonup> string) \<Rightarrow> string \<Rightarrow> pyval \<Rightarrow> pyval" where
  "args_get args key dflt = (case args key of None \<Rightarrow> dflt | Some v \<Rightarrow> PyStr v)"

text \<open>
  The file holds an unresolved merge conflict at lines 19 to 23.  The two sides differ in
  the test on \<^verbatim>\<open>unique\<close>: \<^verbatim>\<open>str(unique).lower() == 'true'\<close> on the \<^verbatim>\<open>HEAD\<close>
  side, \<^verbatim>\<open>unique.lower() == 'true'\<close> on the side of commit 6395ab9.  Both are modelled,
  selected by a \<open>side\<close>.
\<close>

datatype side = HEAD | Incoming

fun parse_unique :: "side \<Rightarrow> pyval \<Rightarrow> exn + bool" where
  "parse_unique HEAD unique = Inr (lower (py_str unique) = ''true'')"
| "parse_unique Incoming unique =
     (case lower_method unique of
        Inl e \<Rightarrow> Inl e
      | Inr s \<Rightarrow> Inr (s = ''true''))"

record params =
  query_text :: "string option"
  page_size :: int
  page_num :: int
  unique :: bool

text \<open>
  Lines 14 to 28: the body of the \<^verbatim>\<open>try\<close> block, statement by statement, and the
  handler, which turns a \<^verbatim>\<open>ValueError\<close> into a \<^verbatim>\<open>ClientError\<close> and lets every
  other exception through.
\<close>

definition try_body ::
  "(string \<Rightarrow> int option) \<Rightarrow> side \<Rightarrow> (string \<rightharpoonup> string) \<Rightarrow> exn + params"
where
  "try_body int_str sd args =
     (let query = args ''query'' in
      case py_int int_str (args_get args ''size'' (PyInt 20)) of
        Inl e \<Rightarrow> Inl e
      | Inr psize \<Rightarrow>
          (case py_int int_str (args_get args ''page'' (PyInt 1)) of
             Inl e \<Rightarrow> Inl e
           | Inr pnum \<Rightarrow>
               (case parse_unique sd (args_get args ''unique'' (PyBool False)) of
                  Inl e \<Rightarrow> Inl e
                | Inr u \<Rightarrow>
                    Inr \<lparr>query_text = query, page_size = psize, page_num = pnum, unique = u\<rparr>)))"

definition parse_params ::
  "(string \<Rightarrow> int option) \<Rightarrow> side \<Rightarrow> (string \<rightharpoonup> string) \<Rightarrow> exn + params"
where
  "parse_params int_str sd args =
     (case try_body int_str sd args of
        Inl (ValueError m) \<Rightarrow> Inl (ClientError ''Input paramaters are of the wrong type'')
      | Inl e \<Rightarrow> Inl e
      | Inr p \<Rightarrow> Inr p)"

text \<open>
  What \<^verbatim>\<open>elastic.advanced_search\<close> returns: a dictionary of which the view reads the
  key \<^verbatim>\<open>'total'\<close>; the items of the page are carried along unread.
\<close>

record 'd results =
  total :: int
  items :: "'d list"

type_synonym 'd backend = "string \<Rightarrow> int \<Rightarrow> int \<Rightarrow> bool \<Rightarrow> exn + 'd results"

text \<open>
  Lines 30 to 50 of \<^verbatim>\<open>query()\<close>, on the parsed parameters: the checks, the call of
  the backend and the page-bound check.  The backend \<^verbatim>\<open>elastic.advanced_search\<close>
  is not part of this file and is a parameter: it returns a result or raises.
\<close>

definition search :: "'d backend \<Rightarrow> params \<Rightarrow> exn + 'd results" where
  "search advanced_search p =
     (case query_text p of
        None \<Rightarrow> Inl (ClientError ''Query required'')
      | Some query \<Rightarrow>
          if page_size p < 1 then
            Inl (ClientError (''Invalid page size '' @ show_int (page_size p) @ '' provided''))
          else if page_num p < 1 then
            Inl (ClientError (''Invalid page number '' @ show_int (page_num p)))
          else
            (let skip = (page_num p - 1) * page_size p in
             case advanced_search query skip (page_size p) (unique p) of
               Inl ConnectionError \<Rightarrow> Inl (ServerError ''Search failed to connect'')
             | Inl e \<Rightarrow> Inl e
             | Inr results \<Rightarrow>
                 (case true_divide (total results) (page_size p) of
                    Inl e \<Rightarrow> Inl e
                  | Inr quo \<Rightarrow>
                      if page_num p > math_ceil quo then
                        Inl (ClientError
                               (''Page number '' @ show_int (page_num p) @ '' is too high''))
                      else Inr results)))"

text \<open>
  The view \<^verbatim>\<open>query()\<close> as a whole, on the parameters of the request: lines 14 to 28,
  then lines 30 to 50.
\<close>

definition query ::
  "(string \<Rightarrow> int option) \<Rightarrow> side \<Rightarrow> 'd backend \<Rightarrow> (string \<rightharpoonup> string) \<Rightarrow> exn + 'd results"
where
  "query int_str sd advanced_search args =
     (case parse_params int_str sd args of
        Inl e \<Rightarrow> Inl e
      | Inr p \<Rightarrow> search advanced_search p)"

section \<open>The plugin registry (core/plugins.py)\<close>

text \<open>
  What a call of \<^verbatim>\<open>plugin.blueprint()\<close> returns: a \<^verbatim>\<open>flask.Blueprint\<close> or an
  object of another class (given by the name of its class).
\<close>

datatype 'b bp_object = Blueprint 'b | NotBlueprint string

text \<open>
  An instance of \<^verbatim>\<open>PluginBase\<close> or of a subclass: the two attributes set by
  \<^verbatim>\<open>__init__\<close>, and the outcome of its method \<^verbatim>\<open>blueprint()\<close>, which raises in
  the base class (\<^verbatim>\<open>NotImplementedError\<close>) and returns an object in a subclass that
  overrides it.
\<close>

record ('b, 'p) plugin =
  name :: string
  user_pref :: "'p option"
  blueprint :: "exn + 'b bp_object"

text \<open>The method \<^verbatim>\<open>blueprint\<close> of the base class.\<close>

definition PluginBase_blueprint :: "exn + 'b bp_object" where
  "PluginBase_blueprint = Inl (NotImplementedError ''Plugin must have blueprint'')"

text \<open>
  What the decorated function returns: an instance of \<^verbatim>\<open>PluginBase\<close>, or an object
  for which \<^verbatim>\<open>isinstance(plugin, PluginBase)\<close> is false (given by the rendering of its
  type, as \<^verbatim>\<open>format\<close> prints it).
\<close>

datatype ('b, 'p) pyobject = Plugin "('b, 'p) plugin" | NonPlugin string

text \<open>The two module-level globals, \<^verbatim>\<open>PLUGINS = []\<close> and \<^verbatim>\<open>USER_PREF = {}\<close>.\<close>

record ('b, 'p) registry =
  PLUGINS :: "('b, 'p) plugin list"
  USER_PREF :: "string \<rightharpoonup> 'p"

definition init_registry :: "('b, 'p) registry" where
  "init_registry = \<lparr>PLUGINS = [], USER_PREF = Map.empty\<rparr>"

text \<open>
  \<^verbatim>\<open>register(func)\<close> returns \<^verbatim>\<open>wrapped\<close>; a call of \<^verbatim>\<open>wrapped\<close> calls
  \<^verbatim>\<open>func\<close>, whose outcome (an exception or the object returned) is the first
  argument here.  The result is what \<^verbatim>\<open>wrapped\<close> raises or returns, with the globals
  after the call.
\<close>

definition register ::
  "exn + ('b, 'p) pyobject \<Rightarrow> ('b, 'p) registry \<Rightarrow> (exn + ('b, 'p) plugin) \<times> ('b, 'p) registry"
where
  "register func st =
     (case func of
        Inl e \<Rightarrow> (Inl e, st)
      | Inr (NonPlugin ty) \<Rightarrow>
          (Inl (TypeError (''Cannot register plugin: wrong type '' @ ty)), st)
      | Inr (Plugin plugin) \<Rightarrow>
          (case blueprint plugin of
             Inl e \<Rightarrow> (Inl e, st)
           | Inr (NotBlueprint cls) \<Rightarrow>
               (Inl (TypeError ''Cannot register plugin, must return a blueprint''), st)
           | Inr (Blueprint plugin_bp) \<Rightarrow>
               (let st1 = st\<lparr>PLUGINS := PLUGINS st @ [plugin]\<rparr>;
                    st2 = (case user_pref plugin of
                             None \<Rightarrow> st1
                           | Some pref \<Rightarrow>
                               st1\<lparr>USER_PREF := (USER_PREF st1)(name plugin \<mapsto> pref)\<rparr>)
                in (Inr plugin, st2))))"

text \<open>A sequence of calls, one after the other, each on the globals the last one left.\<close>

fun register_all :: "(exn + ('b, 'p) pyobject) list \<Rightarrow> ('b, 'p) registry \<Rightarrow> ('b, 'p) registry" where
  "register_all [] st = st"
| "register_all (func # funcs) st = register_all funcs (snd (register func st))"

section \<open>Predicates of the specification and example collaborators\<close>

text \<open>
  A string that is \<^verbatim>\<open>true\<close> up to the case of each of its four letters.
\<close>

definition spells_true :: "string \<Rightarrow> bool" where
  "spells_true s =
     (case s of
        [a, b, c, d] \<Rightarrow> a \<in> set ''tT'' \<and> b \<in> set ''rR'' \<and> c \<in> set ''uU'' \<and> d \<in> set ''eE''
      | _ \<Rightarrow> False)"

text \<open>
  A parameter that \<^verbatim>\<open>int\<close> accepts: it is absent (the default is an integer) or
  \<^verbatim>\<open>int\<close> does not raise on its string.
\<close>

definition int_param_ok :: "(string \<Rightarrow> int option) \<Rightarrow> (string \<rightharpoonup> string) \<Rightarrow> string \<Rightarrow> bool" where
  "int_param_ok int_str args key = (case args key of None \<Rightarrow> True | Some s \<Rightarrow> int_str s \<noteq> None)"

text \<open>
  An \<^verbatim>\<open>int\<close> for the examples, on strings whose characters are code points below 256:
  blanks at both ends are dropped (code points 9 to 13, 32, 133 and 160), one sign is
  allowed, then decimal digits, where a single underscore may stand between two digits,
  and at most 4300 digits (the default limit since CPython 3.11).  The theorems do not
  depend on it: they hold for every \<open>int_str\<close>.
\<close>

definition is_space :: "char \<Rightarrow> bool" where
  "is_space c = (let n = (of_char c :: nat) in (9 \<le> n \<and> n \<le> 13) \<or> n = 32 \<or> n = 133 \<or> n = 160)"

definition is_digit :: "char \<Rightarrow> bool" where
  "is_digit c = (let n = (of_char c :: nat) in 48 \<le> n \<and> n \<le> 57)"

definition digit_val :: "char \<Rightarrow> nat" where
  "digit_val c = of_char c - 48"

definition strip :: "string \<Rightarrow> string" where
  "strip s = rev (dropWhile is_space (rev (dropWhile is_space s)))"

fun py_digits :: "nat \<Rightarrow> bool \<Rightarrow> string \<Rightarrow> nat option" where
  "py_digits acc prev_digit [] = (if prev_digit then Some acc else None)"
| "py_digits acc prev_digit (c # cs) =
     (if is_digit c then py_digits (10 * acc + digit_val c) True cs
      else if c = CHR ''_'' \<and> prev_digit then py_digits acc False cs
      else None)"

definition example_int :: "string \<Rightarrow> int option" where
  "example_int s =
     (let t = strip s;
          (neg, ds) = (case t of
                         c # cs \<Rightarrow> if c = CHR ''-'' then (True, cs)
                                   else if c = CHR ''+'' then (False, cs)
                                   else (False, t)
                       | [] \<Rightarrow> (False, t))
      in if 4300 < length (filter is_digit ds) then None
         else (case py_digits 0 False ds of
                 None \<Rightarrow> None
               | Some n \<Rightarrow> Some (if neg then - int n else int n)))"

text \<open>
  Two backends for the examples: one that reports a fixed total and no items at every
  call, one that raises a fixed exception at every call.
\<close>

definition fixed_total_backend :: "int \<Rightarrow> unit backend" where
  "fixed_total_backend t q skip n u = Inr \<lparr>total = t, items = []\<rparr>"

definition raising_backend :: "exn \<Rightarrow> unit backend" where
  "raising_backend e q skip n u = Inl e"

text \<open>
  A plugin that passes the second check of \<^verbatim>\<open>wrapped\<close>: its \<^verbatim>\<open>blueprint()\<close>
  returns a \<^verbatim>\<open>Blueprint\<close>.  (The first check, \<^verbatim>\<open>isinstance(plugin, PluginBase)\<close>, is
  the type \<open>plugin\<close> itself.)
\<close>

definition valid_plugin :: "('b, 'p) plugin \<Rightarrow> bool" where
  "valid_plugin p = (case blueprint p of Inr (Blueprint b) \<Rightarrow> True | _ \<Rightarrow> False)"

text \<open>
  The invariant of the registry: every plugin in \<^verbatim>\<open>PLUGINS\<close> is valid, and every key
  of \<^verbatim>\<open>USER_PREF\<close> is the name of a plugin in \<^verbatim>\<open>PLUGINS\<close>.
\<close>

definition registry_inv :: "('b, 'p) registry \<Rightarrow> bool" where
  "registry_inv st \<longleftrightarrow>
     (\<forall>p \<in> set (PLUGINS st). valid_plugin p) \<and> dom (USER_PREF st) \<subseteq> name ` set (PLUGINS st)"

text \<open>
  Plugins for the examples: one named \<^verbatim>\<open>hello\<close> with a given blueprint and given
  preferences, and one whose \<^verbatim>\<open>blueprint()\<close> returns \<^verbatim>\<open>None\<close>.
\<close>

definition hello_plugin :: "nat \<Rightarrow> string option \<Rightarrow> (nat, string) plugin" where
  "hello_plugin bp pref = \<lparr>name = ''hello'', user_pref = pref, blueprint = Inr (Blueprint bp)\<rparr>"

definition no_bp_plugin :: "(nat, string) plugin" where
  "no_bp_plugin =
     \<lparr>name = ''bare'', user_pref = Some ''k'', blueprint = Inr (NotBlueprint ''NoneType'')\<rparr>"

section \<open>Library functions\<close>

subsection \<open>The ceiling of a quotient of integers\<close>

lemma ceiling_fraction: "\<lceil>real_of_int a / real_of_int b\<rceil> = - ((- a) div b)"
proof -
  have "\<lfloor>real_of_int (- a) / real_of_int b\<rfloor> = (- a) div b"
    by (rule floor_divide_of_int_eq)
  then show ?thesis
    by (simp add: ceiling_def)
qed

lemma ceiling_fraction_le:
  assumes "0 < d" and "m \<le> n * d"
  shows "- ((- m) div d) \<le> (n::int)"
proof -
  have "real_of_int m \<le> real_of_int (n * d)" using assms(2) by (simp only: of_int_le_iff)
  then have "real_of_int m / real_of_int d \<le> real_of_int n"
    using assms(1) by (simp add: pos_divide_le_eq)
  then have "\<lceil>real_of_int m / real_of_int d\<rceil> \<le> n" by (simp only: ceiling_le_iff)
  then show ?thesis by (simp only: ceiling_fraction)
qed

lemma ceiling_fraction_ge:
  assumes "0 < d" and "(n - 1) * d < m"
  shows "(n::int) \<le> - ((- m) div d)"
proof -
  have "real_of_int ((n - 1) * d) < real_of_int m" using assms(2) by (simp only: of_int_less_iff)
  then have "real_of_int (n - 1) < real_of_int m / real_of_int d"
    using assms(1) by (simp add: pos_less_divide_eq)
  then have "n - 1 < \<lceil>real_of_int m / real_of_int d\<rceil>" by (simp only: less_ceiling_iff)
  then show ?thesis by (simp only: ceiling_fraction)
qed

lemma ceiling_fraction_bounds:
  assumes "0 < b"
  shows "a \<le> (- ((- a) div b)) * b" and "(- ((- a) div b) - 1) * b < (a::int)"
proof -
  define q r where "q = (- a) div b" and "r = (- a) mod b"
  have "q * b + r = - a" by (simp add: q_def r_def)
  then have a: "a = - (q * b) - r" by simp
  have r: "0 \<le> r" "r < b" using assms by (simp_all add: r_def)
  have "a \<le> (- q) * b" using a r by simp
  moreover have "(- q - 1) * b = - (q * b) - b" by (simp add: algebra_simps)
  then have "(- q - 1) * b < a" using a r by simp
  ultimately show "a \<le> (- ((- a) div b)) * b" and "(- ((- a) div b) - 1) * b < a"
    by (simp_all only: q_def)
qed

lemma round_half_even_le:
  assumes "0 < d" and "n \<le> k * d"
  shows "round_half_even n d \<le> k"
proof -
  have "n div d \<le> (k * d) div d"
    using assms by (intro zdiv_mono1)
  then have le: "n div d \<le> k"
    using assms(1) by simp
  show ?thesis
  proof (cases "n div d = k")
    case True
    have "n div d * d + n mod d = n" by simp
    with True assms(2) have "n mod d \<le> 0" by simp
    moreover have "0 \<le> n mod d" using assms(1) by simp
    ultimately have "n mod d = 0" by simp
    with True assms(1) show ?thesis by (simp add: round_half_even_def Let_def)
  next
    case False
    with le have "n div d + 1 \<le> k" by simp
    then show ?thesis by (simp add: round_half_even_def Let_def)
  qed
qed

lemma round_half_even_gt:
  assumes "0 < d" and "d < 2 * (n - k * d)"
  shows "k < round_half_even n d"
proof -
  have "k * d \<le> n" using assms by simp
  then have "(k * d) div d \<le> n div d"
    using assms(1) by (intro zdiv_mono1)
  then have ge: "k \<le> n div d"
    using assms(1) by simp
  show ?thesis
  proof (cases "n div d = k")
    case True
    have "n div d * d + n mod d = n" by simp
    with True have "n mod d = n - k * d" by simp
    with assms(2) True show ?thesis by (simp add: round_half_even_def Let_def)
  next
    case False
    with ge have "k < n div d" by simp
    then show ?thesis by (simp add: round_half_even_def Let_def)
  qed
qed


lemma floor_log2_le:
  assumes "0 < a" and "0 < b"
  shows "if 0 \<le> floor_log2 a b then b * 2 ^ nat (floor_log2 a b) \<le> a
         else b \<le> a * 2 ^ nat (- floor_log2 a b)"
proof -
  define d where "d = bitlen a - bitlen b"
  define c where "c \<longleftrightarrow> (if 0 \<le> d then b * 2 ^ nat d \<le> a else b \<le> a * 2 ^ nat (- d))"
  have fl: "floor_log2 a b = (if c then d else d - 1)"
    by (simp only: floor_log2_def Let_def d_def c_def)
  show ?thesis
  proof (cases c)
    case True
    then have "floor_log2 a b = d" by (simp only: fl if_True)
    with True show ?thesis by (simp only: c_def)
  next
    case False
    then have e: "floor_log2 a b = d - 1" by (simp only: fl if_False)
    define na nb where "na = nat (bitlen a - 1)" and "nb = nat (bitlen b)"
    have la: "2 ^ na \<le> a" using bitlen_bounds [OF assms(1)] by (simp add: na_def)
    have lb: "b < 2 ^ nb" using bitlen_bounds [OF assms(2)] by (simp add: nb_def)
    have pa: "1 \<le> bitlen a" using assms(1) bitlen_eq_zero_iff [of a] bitlen_nonneg [of a] by linarith
    have pb: "0 \<le> bitlen b" by (rule bitlen_nonneg)
    show ?thesis
    proof (cases "0 \<le> d - 1")
      case True
      then have n: "nb + nat (d - 1) = na" using pa pb by (simp add: na_def nb_def d_def)
      have "b * 2 ^ nat (d - 1) \<le> 2 ^ nb * 2 ^ nat (d - 1)"
        using lb by (intro mult_right_mono) simp_all
      also have "\<dots> = (2::int) ^ na" by (simp only: power_add [symmetric] n)
      also have "\<dots> \<le> a" by (rule la)
      finally show ?thesis using True by (simp only: e if_True)
    next
      case False
      then have n: "na + nat (- (d - 1)) = nb" using pa pb by (simp add: na_def nb_def d_def)
      have "b \<le> (2::int) ^ nb" using lb by simp
      also have "\<dots> = 2 ^ na * 2 ^ nat (- (d - 1))" by (simp only: power_add [symmetric] n)
      also have "\<dots> \<le> a * 2 ^ nat (- (d - 1))"
        using la by (intro mult_right_mono) simp_all
      finally show ?thesis using False by (simp only: e if_False)
    qed
  qed
qed

lemma nearest_double_small:
  assumes "0 < a" and "a < 2 ^ 53" and "0 < b"
  shows "\<exists>j. nearest_double a b = (round_half_even (a * 2 ^ j) b, - int j) \<and>
             (b < 2 * 2 ^ j \<or> j = 1074)"
proof -
  define M :: int where "M = 2 ^ 53"
  have aM: "a < M" using assms(2) by (simp only: M_def)
  have Madd: "M * 2 ^ k = 2 ^ (53 + k)" for k by (simp only: M_def power_add)
  define e where "e = floor_log2 a b"
  note le = floor_log2_le [OF assms(1) assms(3), folded e_def]
  have e52: "e \<le> 52"
  proof (rule ccontr)
    assume "\<not> e \<le> 52"
    then have e: "53 \<le> e" by simp
    define k where "k = nat e - 53"
    have ne: "nat e = 53 + k" using e by (simp add: k_def)
    have "M * 1 \<le> M * 2 ^ k" by (intro mult_left_mono) (simp_all add: M_def)
    then have "M \<le> 2 ^ nat e" by (simp only: Madd ne mult_1_right)
    also have "\<dots> = 1 * 2 ^ nat e" by simp
    also have "\<dots> \<le> b * 2 ^ nat e" using assms(3) by (intro mult_right_mono) simp_all
    also have "\<dots> \<le> a" using le e by simp
    finally show False using aM by simp
  qed
  define p where "p = max (e - 52) (- 1074)"
  define j where "j = nat (- p)"
  have p0: "p \<le> 0" using e52 by (simp add: p_def)
  then have pj: "p = - int j" by (simp add: j_def)
  have nd0: "nearest_double a b =
      ((if 0 \<le> p then round_half_even a (b * 2 ^ nat p)
        else round_half_even (a * 2 ^ nat (- p)) b), p)"
    by (simp only: nearest_double_def Let_def e_def p_def)
  have nd: "nearest_double a b = (round_half_even (a * 2 ^ j) b, - int j)"
  proof (cases "p = 0")
    case True
    then have "j = 0" by (simp add: j_def)
    with True show ?thesis by (simp add: nd0)
  next
    case False
    with p0 have "\<not> 0 \<le> p" by simp
    then have "nearest_double a b = (round_half_even (a * 2 ^ nat (- p)) b, p)"
      by (simp only: nd0 if_False)
    then show ?thesis by (simp only: j_def [symmetric]) (simp only: pj)
  qed
  have "b < 2 * 2 ^ j \<or> j = 1074"
  proof (cases "- 1074 \<le> e - 52")
    case False
    then have "p = - 1074" by (simp add: p_def)
    then show ?thesis by (simp add: j_def)
  next
    case True
    then have p: "p = e - 52" by (simp add: p_def)
    have pos: "(0::int) < 2 ^ n" for n by simp
    show ?thesis
    proof (cases "0 \<le> e")
      case True
      then have s: "53 = (1 + j) + nat e" using e52 by (simp add: j_def p)
      have "b * 2 ^ nat e \<le> a" using le True by simp
      also have "a < M" by (rule aM)
      also have "M = 2 ^ ((1 + j) + nat e)" by (simp only: M_def s [symmetric])
      also have "\<dots> = (2 * 2 ^ j) * 2 ^ nat e" by (simp only: power_add power_one_right)
      finally have "b * 2 ^ nat e < (2 * 2 ^ j) * 2 ^ nat e" .
      then have "b < 2 * 2 ^ j"
        by (simp only: mult_less_cancel_right_pos [OF pos])
      then show ?thesis ..
    next
      case False
      then have s: "53 + nat (- e) = 1 + j" by (simp add: j_def p)
      have "b \<le> a * 2 ^ nat (- e)" using le False by simp
      also have "\<dots> < M * 2 ^ nat (- e)"
        using aM by (intro mult_strict_right_mono) simp_all
      also have "\<dots> = (2::int) ^ (1 + j)" by (simp only: Madd s)
      also have "\<dots> = 2 * 2 ^ j" by (simp only: power_add power_one_right)
      finally have "b < 2 * 2 ^ j" .
      then show ?thesis ..
    qed
  qed
  with nd show ?thesis by blast
qed

text \<open>
  For \<open>0 < a < 2 ^ 53\<close> and \<open>0 < b\<close> the quotient \<^verbatim>\<open>a / b\<close> does not overflow and
  \<^verbatim>\<open>math.ceil(a / b)\<close> is not above the ceiling of the exact quotient; for a divisor
  below \<open>2 ^ 53\<close> it is that ceiling.
\<close>

lemma true_divide_small:
  assumes "0 < a" and "a < 2 ^ 53" and "0 < b"
  shows "\<exists>x. true_divide a b = Inr x \<and> math_ceil x \<le> \<lceil>real_of_int a / real_of_int b\<rceil> \<and>
             (b < 2 ^ 53 \<longrightarrow> math_ceil x = \<lceil>real_of_int a / real_of_int b\<rceil>)"
proof -
  define n where "n = - ((- a) div b)"
  have n: "\<lceil>real_of_int a / real_of_int b\<rceil> = n" by (simp only: n_def ceiling_fraction)
  from ceiling_fraction_bounds [OF assms(3), of a]
  have an: "a \<le> n * b" and na: "(n - 1) * b < a" by (simp_all only: n_def)
  from nearest_double_small [OF assms] obtain j
    where nd: "nearest_double a b = (round_half_even (a * 2 ^ j) b, - int j)"
      and bj: "b < 2 * 2 ^ j \<or> j = 1074"
    by blast
  define m where "m = round_half_even (a * 2 ^ j) b"
  define c where "c = - ((- m) div 2 ^ j)"
  have pos: "(0::int) < 2 ^ j" by simp
  have "a * 2 ^ j \<le> (n * b) * 2 ^ j" using an by (intro mult_right_mono) simp_all
  then have "a * 2 ^ j \<le> (n * 2 ^ j) * b" by (simp only: mult_ac)
  from round_half_even_le [OF assms(3) this] have mn: "m \<le> n * 2 ^ j" by (simp only: m_def)
  from ceiling_fraction_le [OF pos mn] have cn: "c \<le> n" by (simp only: c_def)
  have "a \<le> a * b" using assms(1,3) by (simp add: mult_le_cancel_left1)
  with assms(3) have "n \<le> a" unfolding n_def by (intro ceiling_fraction_le)
  with assms(2) have nM: "n < 2 ^ 53" by simp
  have no: "\<not> (0 \<le> - int j \<and> (2::int) ^ 1024 \<le> m * 2 ^ nat (- int j))"
  proof (cases "j = 0")
    case True
    with mn have "m \<le> n" by simp
    with nM have "m < 2 ^ 53" by simp
    also have "(2::int) ^ 53 \<le> 2 ^ 1024" by (intro power_increasing) simp_all
    finally show ?thesis using True by simp
  next
    case False
    then show ?thesis by simp
  qed
  have mc: "math_ceil (m, - int j) = c"
    by (cases "j = 0") (simp_all add: c_def)
  have a0: "a \<noteq> 0" "b \<noteq> 0" "\<bar>a\<bar> = a" "\<bar>b\<bar> = b" "sgn a = 1" "sgn b = 1"
    using assms(1,3) by simp_all
  have td: "true_divide a b = Inr (m, - int j)"
    using no by (simp only: true_divide_def a0 nd m_def [symmetric] if_False prod.case mult_1)
  have "c = n" if b53: "b < 2 ^ 53"
  proof -
    have bj': "b < 2 * 2 ^ j"
    proof -
      from bj show ?thesis
      proof
        assume "j = 1074"
        have "(2::int) ^ 53 \<le> 2 ^ (1 + 1074)" by (intro power_increasing) simp_all
        also have "\<dots> = 2 * 2 ^ 1074" by (simp only: power_add power_one_right)
        finally show ?thesis using b53 \<open>j = 1074\<close> by simp
      qed
    qed
    have "1 \<le> a - (n - 1) * b" using na by simp
    then have "1 * 2 ^ j \<le> (a - (n - 1) * b) * 2 ^ j" by (intro mult_right_mono) simp_all
    then have "2 ^ j \<le> a * 2 ^ j - ((n - 1) * 2 ^ j) * b" by (simp add: algebra_simps)
    with bj' have "b < 2 * (a * 2 ^ j - ((n - 1) * 2 ^ j) * b)" by simp
    from round_half_even_gt [OF assms(3) this] have "(n - 1) * 2 ^ j < m" by (simp only: m_def)
    from ceiling_fraction_ge [OF pos this] have "n \<le> c" by (simp only: c_def)
    with cn show ?thesis by simp
  qed
  with td mc cn show ?thesis by (simp only: n) auto
qed

lemma true_divide_zero: "b \<noteq> 0 \<Longrightarrow> true_divide 0 b = Inr (0, 0)"
  by (simp add: true_divide_def)

lemmas eval_defs = query_def parse_params_def try_body_def args_get_def search_def
  true_divide_zero show_int_def show_nat.simps digit_char_def lower_def lower_char_def
  example_int_def strip_def is_space_def is_digit_def digit_val_def
  fixed_total_backend_def raising_backend_def

lemmas double_eval = true_divide_def nearest_double_def floor_log2_def round_half_even_def
  compute_bitlen Let_def

subsection \<open>Strings\<close>

lemma py_int_args_get:
  "py_int int_str (args_get args key (PyInt d)) =
     (case args key of
        None \<Rightarrow> Inr d
      | Some s \<Rightarrow> (case int_str s of None \<Rightarrow> Inl (ValueError s) | Some i \<Rightarrow> Inr i))"
  by (simp add: args_get_def split: option.splits)

lemma lower_char_t: "lower_char c = CHR ''t'' \<longleftrightarrow> c \<in> set ''tT''"
  by (auto simp: lower_char_def)

lemma lower_char_r: "lower_char c = CHR ''r'' \<longleftrightarrow> c \<in> set ''rR''"
  by (auto simp: lower_char_def)

lemma lower_char_u: "lower_char c = CHR ''u'' \<longleftrightarrow> c \<in> set ''uU''"
  by (auto simp: lower_char_def)

lemma lower_char_e: "lower_char c = CHR ''e'' \<longleftrightarrow> c \<in> set ''eE''"
  by (auto simp: lower_char_def)

text \<open>
  \<^verbatim>\<open>s.lower() == 'true'\<close> holds for the sixteen spellings of \<^verbatim>\<open>true\<close> and for no
  other string.
\<close>

lemma lower_eq_true: "lower s = ''true'' \<longleftrightarrow> spells_true s"
proof (cases s)
  case Nil
  then show ?thesis by (simp add: lower_def spells_true_def)
next
  case (Cons a s1)
  note s = this
  show ?thesis
  proof (cases s1)
    case Nil
    with s show ?thesis by (simp add: lower_def spells_true_def)
  next
    case (Cons b s2)
    note s1 = this
    show ?thesis
    proof (cases s2)
      case Nil
      with s1 s show ?thesis by (simp add: lower_def spells_true_def)
    next
      case (Cons c s3)
      note s2 = this
      show ?thesis
      proof (cases s3)
        case Nil
        with s2 s1 s show ?thesis by (simp add: lower_def spells_true_def)
      next
        case (Cons d s4)
        with s2 s1 s show ?thesis
          by (cases s4)
             (simp_all add: lower_def spells_true_def lower_char_t lower_char_r lower_char_u
                lower_char_e del: set_simps)
      qed
    qed
  qed
qed

section \<open>Parsing of the request parameters\<close>

text \<open>
  On either side of the conflict, a \<^verbatim>\<open>unique\<close> parameter that is present gives the
  flag that says whether its string spells \<^verbatim>\<open>true\<close>.
\<close>

lemma parse_unique_str: "parse_unique sd (PyStr s) = Inr (spells_true s)"
  by (cases sd) (simp_all add: lower_eq_true)

text \<open>
  On the \<^verbatim>\<open>HEAD\<close> side a boolean is mapped to itself: \<^verbatim>\<open>str(True).lower()\<close> is
  \<^verbatim>\<open>'true'\<close> and \<^verbatim>\<open>str(False).lower()\<close> is \<^verbatim>\<open>'false'\<close>.
\<close>

lemma parse_unique_HEAD_bool: "parse_unique HEAD (PyBool b) = Inr b"
  by (simp add: lower_def lower_char_def)

text \<open>
  The outcome of lines 14 to 28 in closed form, on the \<^verbatim>\<open>HEAD\<close> side for every
  request and on the other side for the requests that carry a \<^verbatim>\<open>unique\<close> parameter:
  the typed parameters, or the \<^verbatim>\<open>ClientError\<close> of the handler.
\<close>

lemma parse_params_eq:
  assumes "sd = HEAD \<or> args ''unique'' \<noteq> None"
  shows "parse_params int_str sd args =
     (if int_param_ok int_str args ''size'' \<and> int_param_ok int_str args ''page''
      then Inr \<lparr>query_text = args ''query'',
                page_size = (case args ''size'' of None \<Rightarrow> 20 | Some s \<Rightarrow> the (int_str s)),
                page_num = (case args ''page'' of None \<Rightarrow> 1 | Some s \<Rightarrow> the (int_str s)),
                unique = (case args ''unique'' of None \<Rightarrow> False | Some s \<Rightarrow> spells_true s)\<rparr>
      else Inl (ClientError ''Input paramaters are of the wrong type''))"
proof -
  have u: "parse_unique sd (args_get args ''unique'' (PyBool False)) =
      Inr (case args ''unique'' of None \<Rightarrow> False | Some s \<Rightarrow> spells_true s)"
  proof (cases "args ''unique''")
    case None
    with assms have "sd = HEAD" by simp
    with None show ?thesis by (simp add: args_get_def lower_def lower_char_def)
  next
    case (Some s)
    then show ?thesis by (simp add: args_get_def parse_unique_str)
  qed
  show ?thesis
    by (auto simp: parse_params_def try_body_def py_int_args_get u int_param_ok_def
        split: option.splits)
qed

text \<open>
  Claim C3.  Parsing of \<^verbatim>\<open>size\<close>, \<^verbatim>\<open>page\<close> and \<^verbatim>\<open>unique\<close> is to give typed
  values or a \<^verbatim>\<open>ClientError\<close>, also when the raw \<^verbatim>\<open>unique\<close> is the boolean default
  of an absent parameter.  On the side of commit 6395ab9 the request
  \<^verbatim>\<open>/query?query=x\<close> calls \<^verbatim>\<open>False.lower()\<close>: the \<^verbatim>\<open>AttributeError\<close> is not a
  \<^verbatim>\<open>ValueError\<close>, so the handler lets it through and the view raises it.
\<close>

theorem incoming_side_absent_unique_unhandled:
  "parse_params int_str Incoming [''query'' \<mapsto> ''x''] =
     Inl (AttributeError ''bool object has no attribute lower'') \<and>
   query int_str Incoming (fixed_total_backend 7) [''query'' \<mapsto> ''x''] =
     Inl (AttributeError ''bool object has no attribute lower'')"
  by (simp add: eval_defs)

text \<open>
  The \<^verbatim>\<open>HEAD\<close> side does what claim C3 asks for: every request gives typed parameters
  or the \<^verbatim>\<open>ClientError\<close> of the handler, and no other exception.
\<close>

lemma parse_params_HEAD_total:
  "(\<exists>p. parse_params int_str HEAD args = Inr p) \<or>
   parse_params int_str HEAD args = Inl (ClientError ''Input paramaters are of the wrong type'')"
  by (simp add: parse_params_eq)

text \<open>
  Claim C6.  The flag is to be true exactly for the spellings of \<^verbatim>\<open>true\<close> and false
  for every other value, an absent parameter included.  For an absent parameter the
  \<^verbatim>\<open>HEAD\<close> side gives false; the side of commit 6395ab9 gives no flag at all but
  raises \<^verbatim>\<open>AttributeError\<close>.
\<close>

theorem absent_unique_flag_by_side:
  "parse_unique HEAD (args_get Map.empty ''unique'' (PyBool False)) = Inr False \<and>
   parse_unique Incoming (args_get Map.empty ''unique'' (PyBool False)) =
     Inl (AttributeError ''bool object has no attribute lower'')"
  by (simp add: args_get_def lower_def lower_char_def)

text \<open>
  What holds of the flag on the \<^verbatim>\<open>HEAD\<close> side: whenever the parameters parse, the
  flag is true exactly when \<^verbatim>\<open>unique\<close> is present and spells \<^verbatim>\<open>true\<close>.
\<close>

lemma unique_flag_HEAD:
  assumes "parse_params int_str HEAD args = Inr p"
  shows "unique p \<longleftrightarrow> (\<exists>s. args ''unique'' = Some s \<and> spells_true s)"
  using assms by (auto simp: parse_params_eq split: if_splits option.splits)

lemma spells_true_examples:
  "spells_true ''true'' \<and> spells_true ''TRUE'' \<and> spells_true ''True'' \<and>
   \<not> spells_true ''false'' \<and> \<not> spells_true []"
  by (simp add: spells_true_def)

section \<open>The view\<close>

text \<open>
  Claim C2, as stated: a request without \<^verbatim>\<open>query\<close> fails with the message
  \<^verbatim>\<open>Query required\<close> whatever the other parameters are.  It does not when
  \<^verbatim>\<open>size\<close> is not an integer: \<^verbatim>\<open>int\<close> raises inside the \<^verbatim>\<open>try\<close> block, before
  the test on \<^verbatim>\<open>query\<close> is reached.
\<close>

theorem missing_query_bad_size_message:
  "[''size'' \<mapsto> ''abc''] ''query'' = None \<and>
   query example_int HEAD (fixed_total_backend 0) [''size'' \<mapsto> ''abc''] =
     Inl (ClientError ''Input paramaters are of the wrong type'') \<and>
   query example_int HEAD (fixed_total_backend 0) [''size'' \<mapsto> ''abc''] \<noteq>
     Inl (ClientError ''Query required'')"
  by (simp add: eval_defs)

text \<open>
  Claim C2, amended.  On the \<^verbatim>\<open>HEAD\<close> side of the conflict, and on the side of commit
  6395ab9 for the requests that carry a \<^verbatim>\<open>unique\<close> parameter: a request without
  \<^verbatim>\<open>query\<close> fails with a \<^verbatim>\<open>ClientError\<close>, whatever the backend and the other
  parameters are; the message is \<^verbatim>\<open>Query required\<close> when \<^verbatim>\<open>size\<close> and \<^verbatim>\<open>page\<close>
  are each absent or accepted by \<^verbatim>\<open>int\<close>, and
  \<^verbatim>\<open>Input paramaters are of the wrong type\<close> when \<^verbatim>\<open>int\<close> raises on one of them.
\<close>

theorem missing_query_client_error:
  assumes "args ''query'' = None" and "sd = HEAD \<or> args ''unique'' \<noteq> None"
  shows "query int_str sd advanced_search args =
     Inl (ClientError (if int_param_ok int_str args ''size'' \<and> int_param_ok int_str args ''page''
                       then ''Query required''
                       else ''Input paramaters are of the wrong type''))"
  using assms by (simp add: query_def parse_params_eq search_def)

theorem missing_query_client_error_witness:
  "query example_int Incoming (raising_backend ConnectionError)
       [''size'' \<mapsto> ''7'', ''unique'' \<mapsto> ''no''] =
     Inl (ClientError ''Query required'') \<and>
   query example_int HEAD (fixed_total_backend 3) [''page'' \<mapsto> ''1.5''] =
     Inl (ClientError ''Input paramaters are of the wrong type'')"
  using missing_query_client_error
      [of "[''size'' \<mapsto> ''7'', ''unique'' \<mapsto> ''no'']" Incoming example_int
          "raising_backend ConnectionError"]
    missing_query_client_error [of "[''page'' \<mapsto> ''1.5'']" HEAD example_int "fixed_total_backend 3"]
  by (simp add: int_param_ok_def eval_defs)

text \<open>
  Claim C1.  A request for page 1 is to pass the page-bound check for every total, a
  total of 0 included.  With a total of 0 the bound \<^verbatim>\<open>ceil(0 / 20)\<close> is 0, and the view
  raises \<^verbatim>\<open>ClientError\<close> for page 1.
\<close>

theorem first_page_of_empty_result_rejected:
  "query example_int HEAD (fixed_total_backend 0)
       [''query'' \<mapsto> ''x'', ''size'' \<mapsto> ''20'', ''page'' \<mapsto> ''1''] =
     Inl (ClientError ''Page number 1 is too high'')"
  by (simp add: eval_defs)

text \<open>
  The same with \<^verbatim>\<open>size\<close> and \<^verbatim>\<open>page\<close> at their defaults, for every \<open>int_str\<close>, and
  for every page size on the parsed parameters.
\<close>

lemma empty_result_first_page_defaults:
  "query int_str HEAD (fixed_total_backend 0) [''query'' \<mapsto> ''x''] =
     Inl (ClientError ''Page number 1 is too high'')"
  by (simp add: eval_defs)

lemma first_page_rejected_at_total_zero:
  assumes "query_text p = Some q" and "1 \<le> page_size p" and "page_num p = 1"
    and "advanced_search q 0 (page_size p) (unique p) = Inr r" and "total r = 0"
  shows "search advanced_search p = Inl (ClientError ''Page number 1 is too high'')"
  using assms
  by (simp add: search_def true_divide_zero show_int_def show_nat.simps digit_char_def)

text \<open>
  For totals and page sizes below \<open>2 ^ 53\<close>, page 1 of a valid query passes the check
  exactly when the backend reports a total of at least 1.
\<close>

lemma first_page_accepted_iff:
  assumes "query_text p = Some q" and "1 \<le> page_size p" and "page_size p < 2 ^ 53"
    and "page_num p = 1"
    and "advanced_search q 0 (page_size p) (unique p) = Inr r"
    and "0 \<le> total r" and "total r < 2 ^ 53"
  shows "search advanced_search p = Inr r \<longleftrightarrow> 1 \<le> total r"
proof (cases "total r = 0")
  case True
  with assms(1,2,4,5) have "search advanced_search p = Inl (ClientError ''Page number 1 is too high'')"
    by (intro first_page_rejected_at_total_zero [of p q advanced_search r])
  with True show ?thesis by simp
next
  case False
  with assms(6) have pos: "0 < total r" by simp
  from assms(2) have b: "0 < page_size p" by simp
  from true_divide_small [OF pos assms(7) b] assms(3) obtain x
    where x: "true_divide (total r) (page_size p) = Inr x"
      and c: "math_ceil x = \<lceil>real_of_int (total r) / real_of_int (page_size p)\<rceil>"
    by blast
  have "0 < real_of_int (total r) / real_of_int (page_size p)" using pos b by simp
  then have "0 < \<lceil>real_of_int (total r) / real_of_int (page_size p)\<rceil>"
    by (simp only: zero_less_ceiling)
  with c have "1 \<le> math_ceil x" by simp
  with assms(1,2,4,5) x pos show ?thesis by (simp add: search_def)
qed

text \<open>
  Claim C7, as stated: for every total, a page number above the ceiling of
  \<open>total / page_size\<close> gives the \<^verbatim>\<open>ClientError\<close>.  The view takes the ceiling of the
  double nearest to the quotient.  For a total of \<open>2 ^ 53 + 3\<close> and a page size of 1
  that double is \<open>2 ^ 53 + 4\<close>, so page \<open>2 ^ 53 + 4\<close>, which is above the ceiling
  \<open>2 ^ 53 + 3\<close> of the quotient, passes the check and the result is returned.
\<close>

theorem page_beyond_last_of_large_total_returned:
  "\<lceil>real_of_int 9007199254740995 / real_of_int 1\<rceil> < (9007199254740996 :: int) \<and>
   search (fixed_total_backend 9007199254740995)
       \<lparr>query_text = Some ''x'', page_size = 1, page_num = 9007199254740996, unique = False\<rparr> =
     Inr \<lparr>total = 9007199254740995, items = []\<rparr>"
  by (simp add: search_def fixed_total_backend_def double_eval)

text \<open>
  Claim C7, amended.  For a valid query (text present, \<open>1 \<le> page_size\<close>,
  \<open>1 \<le> page_num\<close>) and a result of the backend with a total from 0 to below
  \<open>2 ^ 53\<close>, a page number above the ceiling of \<open>total / page_size\<close> gives the
  \<^verbatim>\<open>ClientError\<close> with the page-number-too-high message, not the result.
\<close>

theorem page_beyond_last_rejected:
  assumes "query_text p = Some q" and "1 \<le> page_size p" and "1 \<le> page_num p"
    and "advanced_search q ((page_num p - 1) * page_size p) (page_size p) (unique p) = Inr r"
    and "0 \<le> total r" and "total r < 2 ^ 53"
    and "\<lceil>real_of_int (total r) / real_of_int (page_size p)\<rceil> < page_num p"
  shows "search advanced_search p =
     Inl (ClientError (''Page number '' @ show_int (page_num p) @ '' is too high''))"
proof (cases "total r = 0")
  case True
  with assms(1-4) show ?thesis by (simp add: search_def true_divide_zero)
next
  case False
  with assms(5) have pos: "0 < total r" by simp
  from assms(2) have b: "0 < page_size p" by simp
  from true_divide_small [OF pos assms(6) b] obtain x
    where x: "true_divide (total r) (page_size p) = Inr x"
      and c: "math_ceil x \<le> \<lceil>real_of_int (total r) / real_of_int (page_size p)\<rceil>"
    by blast
  from c assms(7) have "math_ceil x < page_num p" by simp
  with assms(1-4) x show ?thesis by (simp add: search_def)
qed

theorem page_beyond_last_rejected_witness:
  "search (fixed_total_backend 45)
       \<lparr>query_text = Some ''x'', page_size = 20, page_num = 4, unique = False\<rparr> =
     Inl (ClientError ''Page number 4 is too high'')"
  using page_beyond_last_rejected
      [of "\<lparr>query_text = Some ''x'', page_size = 20, page_num = 4, unique = False\<rparr>" "''x''"
          "fixed_total_backend 45" "\<lparr>total = 45, items = []\<rparr>"]
  by (simp add: fixed_total_backend_def show_int_def show_nat.simps digit_char_def)

text \<open>
  Claim C8.  When the call of the backend raises its \<^verbatim>\<open>ConnectionError\<close>, the view
  raises \<^verbatim>\<open>ServerError\<close> with the message \<^verbatim>\<open>Search failed to connect\<close>.  The
  backend is called for the valid queries only.
\<close>

theorem connection_error_is_server_error:
  assumes "query_text p = Some q" and "1 \<le> page_size p" and "1 \<le> page_num p"
    and "advanced_search q ((page_num p - 1) * page_size p) (page_size p) (unique p) =
           Inl ConnectionError"
  shows "search advanced_search p = Inl (ServerError ''Search failed to connect'')"
  using assms by (simp add: search_def)

theorem connection_error_is_server_error_witness:
  "search (raising_backend ConnectionError)
       \<lparr>query_text = Some ''x'', page_size = 20, page_num = 4, unique = True\<rparr> =
     Inl (ServerError ''Search failed to connect'')"
  using connection_error_is_server_error
      [of "\<lparr>query_text = Some ''x'', page_size = 20, page_num = 4, unique = True\<rparr>" "''x''"
          "raising_backend ConnectionError"]
  by (simp add: raising_backend_def)

section \<open>The plugin registry\<close>

text \<open>A call of \<^verbatim>\<open>wrapped\<close> that raises leaves both globals as they were.\<close>

lemma register_failure_unchanged:
  "fst (register func st) = Inl e \<Longrightarrow> snd (register func st) = st"
  by (auto simp: register_def Let_def
      split: sum.splits pyobject.splits bp_object.splits option.splits)

text \<open>
  A call of \<^verbatim>\<open>wrapped\<close> that returns: the function returned a valid plugin, which is
  appended to \<^verbatim>\<open>PLUGINS\<close>; \<^verbatim>\<open>USER_PREF\<close> gets its preferences under its name when
  it has some and is left alone when it has none.
\<close>

lemma register_success:
  assumes "register func st = (Inr p, st')"
  shows "func = Inr (Plugin p) \<and> valid_plugin p \<and> PLUGINS st' = PLUGINS st @ [p] \<and>
         USER_PREF st' = (case user_pref p of None \<Rightarrow> USER_PREF st
                          | Some pref \<Rightarrow> (USER_PREF st)(name p \<mapsto> pref))"
  using assms
  by (auto simp: register_def Let_def valid_plugin_def
      split: sum.splits pyobject.splits bp_object.splits option.splits)

lemma register_inv:
  assumes "registry_inv st"
  shows "registry_inv (snd (register func st))"
proof (cases "fst (register func st)")
  case (Inl e)
  then show ?thesis using assms by (simp add: register_failure_unchanged)
next
  case (Inr p)
  define st' where "st' = snd (register func st)"
  from Inr have "register func st = (Inr p, st')"
    by (simp add: prod_eq_iff st'_def)
  from register_success [OF this]
  have v: "valid_plugin p" and ps: "PLUGINS st' = PLUGINS st @ [p]"
    and up: "USER_PREF st' = (case user_pref p of None \<Rightarrow> USER_PREF st
                              | Some pref \<Rightarrow> (USER_PREF st)(name p \<mapsto> pref))"
    by simp_all
  from up have d: "dom (USER_PREF st') \<subseteq> insert (name p) (dom (USER_PREF st))"
    by (auto split: option.splits if_splits)
  from ps have n: "name ` set (PLUGINS st') = insert (name p) (name ` set (PLUGINS st))"
    by simp
  from assms have a1: "\<forall>x \<in> set (PLUGINS st). valid_plugin x"
    and a2: "dom (USER_PREF st) \<subseteq> name ` set (PLUGINS st)"
    by (simp_all add: registry_inv_def)
  from a1 v ps have "\<forall>x \<in> set (PLUGINS st'). valid_plugin x" by simp
  moreover from d a2 n have "dom (USER_PREF st') \<subseteq> name ` set (PLUGINS st')" by blast
  ultimately show ?thesis
    by (simp add: registry_inv_def st'_def)
qed

lemma register_all_inv: "registry_inv st \<Longrightarrow> registry_inv (register_all funcs st)"
  by (induction funcs arbitrary: st) (simp_all add: register_inv)

lemmas reg_eval = register_def init_registry_def hello_plugin_def no_bp_plugin_def Let_def

text \<open>
  Claim C4.  When the function returns an object that is not a \<^verbatim>\<open>PluginBase\<close>, and
  when it returns a plugin whose \<^verbatim>\<open>blueprint()\<close> returns an object that is not a
  \<^verbatim>\<open>Blueprint\<close>, \<^verbatim>\<open>wrapped\<close> raises a \<^verbatim>\<open>TypeError\<close>, with a message of its own in
  each of the two cases, and \<^verbatim>\<open>PLUGINS\<close> and \<^verbatim>\<open>USER_PREF\<close> are as before the call.
\<close>

theorem register_rejects_without_mutation:
  "register (Inr (NonPlugin ty)) st =
     (Inl (TypeError (''Cannot register plugin: wrong type '' @ ty)), st) \<and>
   (blueprint plugin = Inr (NotBlueprint cls) \<longrightarrow>
      register (Inr (Plugin plugin)) st =
        (Inl (TypeError ''Cannot register plugin, must return a blueprint''), st)) \<and>
   TypeError (''Cannot register plugin: wrong type '' @ ty) \<noteq>
     TypeError ''Cannot register plugin, must return a blueprint''"
  by (simp add: register_def)

theorem register_rejects_without_mutation_witness:
  "register (Inr (NonPlugin ''int''))
       \<lparr>PLUGINS = [hello_plugin 1 None], USER_PREF = [''z'' \<mapsto> ''a'']\<rparr> =
     (Inl (TypeError ''Cannot register plugin: wrong type int''),
      \<lparr>PLUGINS = [hello_plugin 1 None], USER_PREF = [''z'' \<mapsto> ''a'']\<rparr>) \<and>
   register (Inr (Plugin no_bp_plugin))
       \<lparr>PLUGINS = [hello_plugin 1 None], USER_PREF = [''z'' \<mapsto> ''a'']\<rparr> =
     (Inl (TypeError ''Cannot register plugin, must return a blueprint''),
      \<lparr>PLUGINS = [hello_plugin 1 None], USER_PREF = [''z'' \<mapsto> ''a'']\<rparr>)"
  using register_rejects_without_mutation
      [of "''int''" "\<lparr>PLUGINS = [hello_plugin 1 None], USER_PREF = [''z'' \<mapsto> ''a'']\<rparr>"
          no_bp_plugin "''NoneType''"]
  by (simp add: no_bp_plugin_def)

text \<open>
  Claim C5.  After every sequence of calls, those that raise included, starting from the
  empty globals, every plugin in \<^verbatim>\<open>PLUGINS\<close> is valid and every key of
  \<^verbatim>\<open>USER_PREF\<close> is the name of a plugin in \<^verbatim>\<open>PLUGINS\<close>.
\<close>

theorem registry_invariant: "registry_inv (register_all funcs init_registry)"
  by (rule register_all_inv) (simp add: registry_inv_def init_registry_def)

theorem registry_invariant_witness:
  "register_all [Inr (Plugin (hello_plugin 1 (Some ''a''))), Inr (NonPlugin ''int''),
       Inr (Plugin no_bp_plugin), Inl (Exception ''boom''),
       Inr (Plugin (hello_plugin 2 None))] init_registry =
     \<lparr>PLUGINS = [hello_plugin 1 (Some ''a''), hello_plugin 2 None],
      USER_PREF = [''hello'' \<mapsto> ''a'']\<rparr> \<and>
   registry_inv \<lparr>PLUGINS = [hello_plugin 1 (Some ''a''), hello_plugin 2 None],
                 USER_PREF = [''hello'' \<mapsto> ''a'']\<rparr>"
proof -
  have e: "register_all [Inr (Plugin (hello_plugin 1 (Some ''a''))), Inr (NonPlugin ''int''),
       Inr (Plugin no_bp_plugin), Inl (Exception ''boom''),
       Inr (Plugin (hello_plugin 2 None))] init_registry =
     \<lparr>PLUGINS = [hello_plugin 1 (Some ''a''), hello_plugin 2 None],
      USER_PREF = [''hello'' \<mapsto> ''a'']\<rparr>"
    by (simp add: reg_eval)
  show ?thesis
    using registry_invariant
      [of "[Inr (Plugin (hello_plugin 1 (Some ''a''))), Inr (NonPlugin ''int''),
            Inr (Plugin no_bp_plugin), Inl (Exception ''boom''),
            Inr (Plugin (hello_plugin 2 None))]"]
    by (simp only: e simp_thms)
qed

text \<open>
  Claim C9.  After a call that returns a plugin with preferences, \<^verbatim>\<open>USER_PREF\<close> holds
  these preferences under the plugin's name.  After a call that returns a plugin without
  preferences, \<^verbatim>\<open>USER_PREF\<close> is as before, so it has no entry under the plugin's name
  unless it had one before.
\<close>

theorem preferences_after_register:
  assumes "register func st = (Inr p, st')"
  shows "(\<forall>pref. user_pref p = Some pref \<longrightarrow> USER_PREF st' (name p) = Some pref) \<and>
         (user_pref p = None \<longrightarrow> USER_PREF st' = USER_PREF st) \<and>
         (user_pref p = None \<and> name p \<notin> dom (USER_PREF st) \<longrightarrow> name p \<notin> dom (USER_PREF st'))"
  using register_success [OF assms] by (auto split: option.splits)

theorem preferences_after_register_witness:
  "register (Inr (Plugin (hello_plugin 1 (Some ''a'')))) init_registry =
     (Inr (hello_plugin 1 (Some ''a'')),
      \<lparr>PLUGINS = [hello_plugin 1 (Some ''a'')], USER_PREF = [''hello'' \<mapsto> ''a'']\<rparr>) \<and>
   USER_PREF \<lparr>PLUGINS = [hello_plugin 1 (Some ''a'')], USER_PREF = [''hello'' \<mapsto> ''a'']\<rparr>
       (name (hello_plugin 1 (Some ''a''))) = Some ''a'' \<and>
   register (Inr (Plugin (hello_plugin 2 None))) init_registry =
     (Inr (hello_plugin 2 None),
      \<lparr>PLUGINS = [hello_plugin 2 None], USER_PREF = Map.empty\<rparr>) \<and>
   name (hello_plugin 2 None) \<notin>
     dom (USER_PREF \<lparr>PLUGINS = [hello_plugin 2 None], USER_PREF = (Map.empty :: string \<rightharpoonup> string)\<rparr>)"
proof -
  have e1: "register (Inr (Plugin (hello_plugin 1 (Some ''a'')))) init_registry =
     (Inr (hello_plugin 1 (Some ''a'')),
      \<lparr>PLUGINS = [hello_plugin 1 (Some ''a'')], USER_PREF = [''hello'' \<mapsto> ''a'']\<rparr>)"
    by (simp add: reg_eval)
  have e2: "register (Inr (Plugin (hello_plugin 2 None))) init_registry =
     (Inr (hello_plugin 2 None),
      \<lparr>PLUGINS = [hello_plugin 2 None], USER_PREF = Map.empty\<rparr>)"
    by (simp add: reg_eval)
  show ?thesis
    using preferences_after_register [OF e1] preferences_after_register [OF e2] e1 e2
    by (simp add: hello_plugin_def init_registry_def)
qed

text \<open>
  Claim C10.  After two calls that return plugins of the same name, both with
  preferences, \<^verbatim>\<open>PLUGINS\<close> has grown by the two plugins in the order of the calls, and
  \<^verbatim>\<open>USER_PREF\<close> differs from before in the one entry under the shared name, which
  holds the preferences of the second plugin.
\<close>

theorem same_name_overwrites_preferences:
  assumes "register func1 st = (Inr p1, st1)" and "register func2 st1 = (Inr p2, st2)"
    and "name p1 = name p2" and "user_pref p1 = Some pref1" and "user_pref p2 = Some pref2"
  shows "PLUGINS st2 = PLUGINS st @ [p1, p2] \<and>
         USER_PREF st2 = (USER_PREF st)(name p1 \<mapsto> pref2) \<and>
         USER_PREF st2 (name p1) = Some pref2 \<and>
         dom (USER_PREF st2) = insert (name p1) (dom (USER_PREF st))"
  using register_success [OF assms(1)] register_success [OF assms(2)] assms(3-5)
  by auto

theorem same_name_overwrites_preferences_witness:
  "hello_plugin 1 (Some ''a'') \<noteq> hello_plugin 2 (Some ''b'') \<and>
   register (Inr (Plugin (hello_plugin 1 (Some ''a'')))) init_registry =
     (Inr (hello_plugin 1 (Some ''a'')),
      \<lparr>PLUGINS = [hello_plugin 1 (Some ''a'')], USER_PREF = [''hello'' \<mapsto> ''a'']\<rparr>) \<and>
   register (Inr (Plugin (hello_plugin 2 (Some ''b''))))
       \<lparr>PLUGINS = [hello_plugin 1 (Some ''a'')], USER_PREF = [''hello'' \<mapsto> ''a'']\<rparr> =
     (Inr (hello_plugin 2 (Some ''b'')),
      \<lparr>PLUGINS = [hello_plugin 1 (Some ''a''), hello_plugin 2 (Some ''b'')],
       USER_PREF = [''hello'' \<mapsto> ''b'']\<rparr>)"
proof -
  have e1: "register (Inr (Plugin (hello_plugin 1 (Some ''a'')))) init_registry =
     (Inr (hello_plugin 1 (Some ''a'')),
      \<lparr>PLUGINS = [hello_plugin 1 (Some ''a'')], USER_PREF = [''hello'' \<mapsto> ''a'']\<rparr>)"
    by (simp add: reg_eval)
  have e2: "register (Inr (Plugin (hello_plugin 2 (Some ''b''))))
       \<lparr>PLUGINS = [hello_plugin 1 (Some ''a'')], USER_PREF = [''hello'' \<mapsto> ''a'']\<rparr> =
     (Inr (hello_plugin 2 (Some ''b'')),
      \<lparr>PLUGINS = [hello_plugin 1 (Some ''a''), hello_plugin 2 (Some ''b'')],
       USER_PREF = [''hello'' \<mapsto> ''b'']\<rparr>)"
    by (simp add: reg_eval)
  have n: "hello_plugin 1 (Some ''a'') \<noteq> hello_plugin 2 (Some ''b'')"
    by (simp add: hello_plugin_def)
  show ?thesis
    using same_name_overwrites_preferences [OF e1 e2, of "''a''" "''b''"] e1 e2 n
    by (simp add: hello_plugin_def)
qed

end
